theory Spec2Isabelle
  imports Complex_Main "HOL-Library.Char_ord" "HOL-Library.List_Lexorder" "HOL-Library.Multiset"
begin

section \<open>Data model\<close>

text \<open>
  The pipeline of \<^verbatim>\<open>geographic_choropleth_map.py\<close> works on a pandas table. The
  model is row oriented: a table is the list of its rows, in the order of the file.
  Only the four columns the code touches are kept. A cell that pandas holds as NaN
  is \<open>None\<close>: the category column after \<^verbatim>\<open>Series.map\<close>, and the revenue column as
  read. Revenues and percentages are exact rationals (the rounding of the 64-bit
  floats of pandas is not modelled); the tenure is an integer.
\<close>

record sale =
  state :: string
  sales_method :: "string option"
  revenue :: "rat option"
  years_as_customer :: int

text \<open>The exceptions the data path can raise: a label missing from an index (a
  dictionary-less lookup in a Series or a column selection), and \<^verbatim>\<open>idxmax\<close> of an
  empty row.\<close>

datatype error = KeyError | ValueError

text \<open>One row of the table \<^verbatim>\<open>choropleth_data\<close>: the region, the percentage columns
  (one per category of the data, in sorted order), the two derived columns and the
  attached code.\<close>

record choropleth_row =
  region :: string
  method_pct :: "(string \<times> rat) list"
  dominant_method :: string
  dominance_strength :: rat
  abbrev :: "string option"

section \<open>Loading and cleaning\<close>

definition sales_method_mapping :: "string \<rightharpoonup> string" where
  "sales_method_mapping = map_of
     [(''Email'', ''Email''),
      (''Call'', ''Call''),
      (''Email + Call'', ''Email + Call''),
      (''em + call'', ''Email + Call''),
      (''email'', ''Email'')]"

text \<open>\<^verbatim>\<open>sales_data['sales_method'].map(sales_method_mapping)\<close>: a value with no entry
  in the dictionary, and a cell that is already NaN, become NaN.\<close>

definition map_sales_method :: "sale \<Rightarrow> sale" where
  "map_sales_method r =
     r\<lparr>sales_method := (case sales_method r of None \<Rightarrow> None
                        | Some raw \<Rightarrow> sales_method_mapping raw)\<rparr>"

text \<open>\<^verbatim>\<open>Series.mean()\<close> skips NaN; of no value at all it is NaN.\<close>

definition mean :: "rat option list \<Rightarrow> rat option" where
  "mean vs =
     (let xs = List.map_filter id vs
      in if xs = [] then None else Some (sum_list xs / of_nat (length xs)))"

text \<open>\<^verbatim>\<open>groupby('sales_method')\<close> drops the rows whose key is NaN and sorts the keys.\<close>

definition group_keys :: "sale list \<Rightarrow> string list" where
  "group_keys sales_data = sort (remdups (List.map_filter sales_method sales_data))"

definition mean_revenue_by_method :: "sale list \<Rightarrow> (string \<times> rat option) list" where
  "mean_revenue_by_method sales_data =
     map (\<lambda>k. (k, mean (map revenue (filter (\<lambda>r. sales_method r = Some k) sales_data))))
       (group_keys sales_data)"

text \<open>\<^verbatim>\<open>series[key]\<close>: a label that is not in the index raises KeyError, and NaN is
  never in the index of a groupby result.\<close>

definition series_getitem :: "(string \<times> 'v) list \<Rightarrow> string option \<Rightarrow> error + 'v" where
  "series_getitem s key =
     (case key of None \<Rightarrow> Inl KeyError
      | Some k \<Rightarrow> (case map_of s k of None \<Rightarrow> Inl KeyError | Some v \<Rightarrow> Inr v))"

definition replace_null_revenue :: "(string \<times> rat option) list \<Rightarrow> sale \<Rightarrow> error + rat option" where
  "replace_null_revenue means row =
     (if revenue row = None then series_getitem means (sales_method row)
      else Inr (revenue row))"

text \<open>\<^verbatim>\<open>DataFrame.apply(f, axis=1)\<close>: the function is called on each row in order; the
  first exception ends the call. (For a table without rows pandas does not go through
  the rows but hands back a copy of the frame, and what the assignment to the revenue
  column then does is a matter of the pandas version; the statements below that say
  that the cleaning stage returns are about tables with at least one row.)\<close>

fun apply_rows :: "('a \<Rightarrow> error + 'b) \<Rightarrow> 'a list \<Rightarrow> error + 'b list" where
  "apply_rows f [] = Inr []"
| "apply_rows f (x # xs) =
     (case f x of Inl e \<Rightarrow> Inl e
      | Inr y \<Rightarrow> (case apply_rows f xs of Inl e \<Rightarrow> Inl e | Inr ys \<Rightarrow> Inr (y # ys)))"

definition set_revenue :: "sale \<times> rat option \<Rightarrow> sale" where
  "set_revenue p = (fst p)\<lparr>revenue := snd p\<rparr>"

text \<open>\<^verbatim>\<open>sales_data.loc[sales_data['years_as_customer'] > 39, 'years_as_customer'] = 39\<close>\<close>

definition cap_years :: "sale \<Rightarrow> sale" where
  "cap_years r = (if years_as_customer r > 39 then r\<lparr>years_as_customer := 39\<rparr> else r)"

text \<open>The argument is the table \<^verbatim>\<open>pd.read_csv(filepath)\<close> returned; reading the file
  is outside the model.\<close>

definition load_sales_data :: "sale list \<Rightarrow> error + sale list" where
  "load_sales_data csv =
     (let sales_data = map map_sales_method csv;
          means = mean_revenue_by_method sales_data
      in case apply_rows (replace_null_revenue means) sales_data of
           Inl e \<Rightarrow> Inl e
         | Inr revs \<Rightarrow> Inr (map cap_years (map set_revenue (zip sales_data revs))))"

section \<open>Aggregation by region\<close>

text \<open>The percentage table has a column per category of the data, and the code adds
  the columns \<^verbatim>\<open>dominant_method\<close>, \<^verbatim>\<open>dominance_strength\<close>, \<^verbatim>\<open>state\<close> and
  \<^verbatim>\<open>state_abbrev\<close> to it. The model keeps the category columns apart from the added
  ones, which is what pandas does as long as no category has one of these four names;
  no category of a cleaned table has. Where a claim is about the rows of the result,
  it is stated for the cleaned tables.\<close>

text \<open>\<^verbatim>\<open>groupby(['state', 'sales_method'])\<close>: the keys of the rows that have a category.\<close>

definition group_pairs :: "sale list \<Rightarrow> (string \<times> string) list" where
  "group_pairs sales_data =
     List.map_filter (\<lambda>r. map_option (Pair (state r)) (sales_method r)) sales_data"

definition pct_index :: "sale list \<Rightarrow> string list" where
  "pct_index sales_data = sort (remdups (map fst (group_pairs sales_data)))"

definition pct_columns :: "sale list \<Rightarrow> string list" where
  "pct_columns sales_data = sort (remdups (map snd (group_pairs sales_data)))"

text \<open>\<^verbatim>\<open>.size().unstack(fill_value=0)\<close>: the row of one region, a count per column.\<close>

definition size_row :: "sale list \<Rightarrow> string \<Rightarrow> (string \<times> nat) list" where
  "size_row sales_data s =
     map (\<lambda>m. (m, count_list (group_pairs sales_data) (s, m))) (pct_columns sales_data)"

text \<open>\<^verbatim>\<open>state_method_pct.div(state_method_pct.sum(axis=1), axis=0) * 100\<close>\<close>

definition pct_row :: "(string \<times> nat) list \<Rightarrow> (string \<times> rat) list" where
  "pct_row cells =
     (let total = sum_list (map snd cells)
      in map (\<lambda>c. (fst c, of_nat (snd c) / of_nat total * 100)) cells)"

definition state_method_pct :: "sale list \<Rightarrow> (string \<times> (string \<times> rat) list) list" where
  "state_method_pct sales_data =
     map (\<lambda>s. (s, pct_row (size_row sales_data s))) (pct_index sales_data)"

definition numeric_cols :: "string list" where
  "numeric_cols = [''Call'', ''Email'', ''Email + Call'']"

text \<open>\<^verbatim>\<open>state_method_pct[numeric_cols]\<close>: every label has to be a column of the frame.\<close>

definition has_columns :: "string list \<Rightarrow> string list \<Rightarrow> bool" where
  "has_columns columns labels = list_all (\<lambda>c. c \<in> set columns) labels"

definition select_cols :: "string list \<Rightarrow> (string \<times> rat) list \<Rightarrow> error + (string \<times> rat) list" where
  "select_cols labels cells =
     apply_rows (\<lambda>c. case map_of cells c of None \<Rightarrow> Inl KeyError | Some v \<Rightarrow> Inr (c, v)) labels"

text \<open>\<^verbatim>\<open>idxmax(axis=1)\<close>: the label of the first occurrence of the maximum of the row.\<close>

fun first_max :: "string \<times> rat \<Rightarrow> (string \<times> rat) list \<Rightarrow> string \<times> rat" where
  "first_max best [] = best"
| "first_max best (c # cs) = first_max (if snd best < snd c then c else best) cs"

definition idxmax :: "(string \<times> rat) list \<Rightarrow> error + string \<times> rat" where
  "idxmax cells = (case cells of [] \<Rightarrow> Inl ValueError | c # cs \<Rightarrow> Inr (first_max c cs))"

definition state_abbrev :: "string \<rightharpoonup> string" where
  "state_abbrev = map_of
     [(''Alabama'', ''AL''), (''Alaska'', ''AK''), (''Arizona'', ''AZ''), (''Arkansas'', ''AR''),
      (''California'', ''CA''), (''Colorado'', ''CO''), (''Connecticut'', ''CT''),
      (''Delaware'', ''DE''), (''Florida'', ''FL''), (''Georgia'', ''GA''), (''Hawaii'', ''HI''),
      (''Idaho'', ''ID''), (''Illinois'', ''IL''), (''Indiana'', ''IN''), (''Iowa'', ''IA''),
      (''Kansas'', ''KS''), (''Kentucky'', ''KY''), (''Louisiana'', ''LA''), (''Maine'', ''ME''),
      (''Maryland'', ''MD''), (''Massachusetts'', ''MA''), (''Michigan'', ''MI''),
      (''Minnesota'', ''MN''), (''Mississippi'', ''MS''), (''Missouri'', ''MO''),
      (''Montana'', ''MT''), (''Nebraska'', ''NE''), (''Nevada'', ''NV''),
      (''New Hampshire'', ''NH''), (''New Jersey'', ''NJ''), (''New Mexico'', ''NM''),
      (''New York'', ''NY''), (''North Carolina'', ''NC''), (''North Dakota'', ''ND''),
      (''Ohio'', ''OH''), (''Oklahoma'', ''OK''), (''Oregon'', ''OR''), (''Pennsylvania'', ''PA''),
      (''Rhode Island'', ''RI''), (''South Carolina'', ''SC''), (''South Dakota'', ''SD''),
      (''Tennessee'', ''TN''), (''Texas'', ''TX''), (''Utah'', ''UT''), (''Vermont'', ''VT''),
      (''Virginia'', ''VA''), (''Washington'', ''WA''), (''West Virginia'', ''WV''),
      (''Wisconsin'', ''WI''), (''Wyoming'', ''WY'')]"

text \<open>The row of \<^verbatim>\<open>choropleth_data\<close> for one row of the percentage table: the two
  derived columns are computed from the selection of \<^verbatim>\<open>numeric_cols\<close>, then the code
  is attached with \<^verbatim>\<open>Series.map(state_abbrev)\<close>, which gives NaN for an unknown name.\<close>

definition choropleth_of :: "string \<times> (string \<times> rat) list \<Rightarrow> error + choropleth_row" where
  "choropleth_of p =
     (case select_cols numeric_cols (snd p) of
        Inl e \<Rightarrow> Inl e
      | Inr cells \<Rightarrow>
          (case idxmax cells of
             Inl e \<Rightarrow> Inl e
           | Inr best \<Rightarrow>
               Inr \<lparr>region = fst p, method_pct = snd p, dominant_method = fst best,
                    dominance_strength = snd best, abbrev = state_abbrev (fst p)\<rparr>))"

definition calculate_geographic_dominance :: "sale list \<Rightarrow> error + choropleth_row list" where
  "calculate_geographic_dominance sales_data =
     (if has_columns (pct_columns sales_data) numeric_cols
      then apply_rows choropleth_of (state_method_pct sales_data)
      else Inl KeyError)"

section \<open>Notions used in the statements and proofs\<close>

text \<open>What the imputation step puts into the revenue cell of a row of the normalised
  table, when the lookup does not raise.\<close>

definition imputed :: "sale list \<Rightarrow> sale \<Rightarrow> rat option" where
  "imputed sd r =
     (if revenue r = None
      then (case sales_method r of None \<Rightarrow> None
            | Some k \<Rightarrow> mean (map revenue (filter (\<lambda>r. sales_method r = Some k) sd)))
      else revenue r)"

text \<open>The rows on which \<^verbatim>\<open>replace_null_revenue\<close> raises: no revenue and no category.\<close>

definition lookup_fails :: "sale \<Rightarrow> bool" where
  "lookup_fails r \<longleftrightarrow> revenue r = None \<and> sales_method r = None"

definition clean :: "sale list \<Rightarrow> sale \<Rightarrow> sale" where
  "clean sd r = cap_years (r\<lparr>revenue := imputed sd r\<rparr>)"

text \<open>The counts the shares are made of: the records of a region with a given
  category, and the records of a region that have a category at all (the rows
  \<^verbatim>\<open>groupby\<close> keeps).\<close>

definition region_count :: "sale list \<Rightarrow> string \<Rightarrow> string \<Rightarrow> nat" where
  "region_count sd s c = length (filter (\<lambda>r. state r = s \<and> sales_method r = Some c) sd)"

definition region_total :: "sale list \<Rightarrow> string \<Rightarrow> nat" where
  "region_total sd s = length (filter (\<lambda>r. state r = s \<and> sales_method r \<noteq> None) sd)"

text \<open>The percentage a region gets in the column of a category, and the row of the
  result for a region.\<close>

definition share :: "sale list \<Rightarrow> string \<Rightarrow> string \<Rightarrow> rat" where
  "share sd s c = of_nat (region_count sd s c) / of_nat (region_total sd s) * 100"

definition region_row :: "sale list \<Rightarrow> string \<Rightarrow> choropleth_row" where
  "region_row sd s =
     (let best = first_max (''Call'', share sd s ''Call'')
                   [(''Email'', share sd s ''Email''), (''Email + Call'', share sd s ''Email + Call'')]
      in \<lparr>region = s, method_pct = map (\<lambda>c. (c, share sd s c)) (pct_columns sd),
          dominant_method = fst best, dominance_strength = snd best,
          abbrev = state_abbrev s\<rparr>)"

section \<open>Example tables\<close>

definition sales_ex :: "sale list" where
  "sales_ex =
     [\<lparr>state = ''Texas'', sales_method = Some ''Call'', revenue = Some 10, years_as_customer = 45\<rparr>,
      \<lparr>state = ''Texas'', sales_method = Some ''Call'', revenue = None, years_as_customer = 39\<rparr>,
      \<lparr>state = ''Ohio'', sales_method = Some ''Call'', revenue = Some 30, years_as_customer = 5\<rparr>]"

definition sales_ex_clean :: "sale list" where
  "sales_ex_clean =
     [\<lparr>state = ''Texas'', sales_method = Some ''Call'', revenue = Some 10, years_as_customer = 39\<rparr>,
      \<lparr>state = ''Texas'', sales_method = Some ''Call'', revenue = Some 20, years_as_customer = 39\<rparr>,
      \<lparr>state = ''Ohio'', sales_method = Some ''Call'', revenue = Some 30, years_as_customer = 5\<rparr>]"

definition sales_unmapped_missing :: "sale list" where
  "sales_unmapped_missing =
     [\<lparr>state = ''Texas'', sales_method = Some ''Call'', revenue = Some 8, years_as_customer = 2\<rparr>,
      \<lparr>state = ''Texas'', sales_method = Some ''phone'', revenue = None, years_as_customer = 5\<rparr>]"

definition sales_unmapped_present :: "sale list" where
  "sales_unmapped_present =
     [\<lparr>state = ''Texas'', sales_method = Some ''phone'', revenue = Some 10, years_as_customer = 5\<rparr>,
      \<lparr>state = ''Texas'', sales_method = Some ''em + call'', revenue = None, years_as_customer = 3\<rparr>,
      \<lparr>state = ''Ohio'', sales_method = Some ''Email + Call'', revenue = Some 8, years_as_customer = 2\<rparr>]"

definition sales_all_missing :: "sale list" where
  "sales_all_missing =
     [\<lparr>state = ''Texas'', sales_method = Some ''Call'', revenue = None, years_as_customer = 45\<rparr>,
      \<lparr>state = ''Ohio'', sales_method = Some ''Email'', revenue = Some 4, years_as_customer = 1\<rparr>]"

definition dominance_ex :: "sale list" where
  "dominance_ex =
     replicate 7 \<lparr>state = ''Texas'', sales_method = Some ''Call'', revenue = Some 50, years_as_customer = 3\<rparr> @
     replicate 3 \<lparr>state = ''Texas'', sales_method = Some ''Email'', revenue = Some 90, years_as_customer = 1\<rparr> @
     [\<lparr>state = ''Ohio'', sales_method = Some ''Email + Call'', revenue = Some 180, years_as_customer = 12\<rparr>,
      \<lparr>state = ''Utah'', sales_method = Some ''Email'', revenue = Some 95, years_as_customer = 4\<rparr>,
      \<lparr>state = ''Utah'', sales_method = Some ''Call'', revenue = Some 45, years_as_customer = 6\<rparr>]"

definition dominance_ex_out :: "choropleth_row list" where
  "dominance_ex_out =
     [\<lparr>region = ''Ohio'', method_pct = [(''Call'', 0), (''Email'', 0), (''Email + Call'', 100)],
       dominant_method = ''Email + Call'', dominance_strength = 100, abbrev = Some ''OH''\<rparr>,
      \<lparr>region = ''Texas'', method_pct = [(''Call'', 70), (''Email'', 30), (''Email + Call'', 0)],
       dominant_method = ''Call'', dominance_strength = 70, abbrev = Some ''TX''\<rparr>,
      \<lparr>region = ''Utah'', method_pct = [(''Call'', 50), (''Email'', 50), (''Email + Call'', 0)],
       dominant_method = ''Call'', dominance_strength = 50, abbrev = Some ''UT''\<rparr>]"

definition sales_two_methods :: "sale list" where
  "sales_two_methods =
     [\<lparr>state = ''Texas'', sales_method = Some ''Call'', revenue = Some 10, years_as_customer = 2\<rparr>,
      \<lparr>state = ''Texas'', sales_method = Some ''Email'', revenue = Some 4, years_as_customer = 3\<rparr>]"







section \<open>Lemmas about the cleaning stage\<close>


lemma apply_rows_Inr_iff:
  "apply_rows f xs = Inr ys \<longleftrightarrow> map f xs = map Inr ys"
proof (induction xs arbitrary: ys)
  case Nil
  show ?case by auto
next
  case (Cons x xs)
  show ?case
  proof (cases ys)
    case Nil
    then show ?thesis by (simp split: sum.splits)
  next
    case (Cons y ys')
    show ?thesis
      using Cons.IH [of ys'] unfolding Cons
      by (cases "f x"; cases "apply_rows f xs") auto
  qed
qed

lemma apply_rows_Inl:
  "apply_rows f xs = Inl e \<Longrightarrow> \<exists>x\<in>set xs. f x = Inl e"
  by (induction xs) (auto split: sum.splits)

lemma apply_rows_total:
  "(\<forall>x\<in>set xs. f x = Inr (g x)) \<Longrightarrow> apply_rows f xs = Inr (map g xs)"
  by (induction xs) simp_all

lemma apply_rows_fails:
  "\<exists>x\<in>set xs. f x = Inl e \<Longrightarrow> \<forall>x\<in>set xs. \<forall>e'. f x = Inl e' \<longrightarrow> e' = e \<Longrightarrow>
   apply_rows f xs = Inl e"
proof (induction xs)
  case Nil
  then show ?case by simp
next
  case (Cons x xs)
  show ?case
  proof (cases "f x")
    case (Inl e')
    with Cons.prems(2) have "e' = e" by simp
    with Inl show ?thesis by simp
  next
    case (Inr y)
    with Cons.prems(1) have "\<exists>x\<in>set xs. f x = Inl e" by auto
    moreover from Cons.prems(2) have "\<forall>x\<in>set xs. \<forall>e'. f x = Inl e' \<longrightarrow> e' = e" by simp
    ultimately have "apply_rows f xs = Inl e" by (rule Cons.IH)
    with Inr show ?thesis by simp
  qed
qed

lemma map_of_tabulate:
  "map_of (map (\<lambda>k. (k, g k)) ks) k = (if k \<in> set ks then Some (g k) else None)"
  by (induction ks) auto

lemma set_map_filter:
  "set (List.map_filter f xs) = {y. \<exists>x\<in>set xs. f x = Some y}"
  by (induction xs) (auto split: option.splits)

lemma set_group_keys:
  "set (group_keys sd) = {k. \<exists>r\<in>set sd. sales_method r = Some k}"
  by (simp add: group_keys_def set_map_filter)

lemma replace_null_revenue_cases:
  assumes "r \<in> set sd"
  shows "replace_null_revenue (mean_revenue_by_method sd) r =
     (if lookup_fails r then Inl KeyError else Inr (imputed sd r))"
proof (cases "sales_method r")
  case None
  then show ?thesis
    by (simp add: replace_null_revenue_def series_getitem_def imputed_def lookup_fails_def)
next
  case (Some k)
  with assms have "k \<in> set (group_keys sd)"
    unfolding set_group_keys by blast
  then have "map_of (mean_revenue_by_method sd) k =
      Some (mean (map revenue (filter (\<lambda>r. sales_method r = Some k) sd)))"
    unfolding mean_revenue_by_method_def by (simp only: map_of_tabulate if_True)
  with Some show ?thesis
    by (simp add: replace_null_revenue_def series_getitem_def imputed_def lookup_fails_def)
qed

lemma impute_fails:
  assumes "\<exists>r\<in>set sd. lookup_fails r"
  shows "apply_rows (replace_null_revenue (mean_revenue_by_method sd)) sd = Inl KeyError"
proof (rule apply_rows_fails)
  from assms show "\<exists>r\<in>set sd. replace_null_revenue (mean_revenue_by_method sd) r = Inl KeyError"
    using replace_null_revenue_cases by fastforce
  show "\<forall>r\<in>set sd. \<forall>e'. replace_null_revenue (mean_revenue_by_method sd) r = Inl e' \<longrightarrow> e' = KeyError"
    by (simp add: replace_null_revenue_cases)
qed

lemma impute_returns:
  assumes "\<forall>r\<in>set sd. \<not> lookup_fails r"
  shows "apply_rows (replace_null_revenue (mean_revenue_by_method sd)) sd = Inr (map (imputed sd) sd)"
  using assms by (intro apply_rows_total) (simp add: replace_null_revenue_cases)

lemma set_revenue_zip:
  "map cap_years (map set_revenue (zip sd (map (imputed sd') sd))) = map (clean sd') sd"
  by (induction sd) (simp_all add: set_revenue_def clean_def)

lemma load_sales_data_fails:
  assumes "\<exists>r\<in>set csv. lookup_fails (map_sales_method r)"
  shows "load_sales_data csv = Inl KeyError"
proof -
  from assms have "\<exists>r\<in>set (map map_sales_method csv). lookup_fails r" by simp
  then have "apply_rows (replace_null_revenue (mean_revenue_by_method (map map_sales_method csv)))
      (map map_sales_method csv) = Inl KeyError"
    by (rule impute_fails)
  then show ?thesis
    by (simp only: load_sales_data_def Let_def sum.case)
qed

lemma load_sales_data_returns:
  assumes "\<forall>r\<in>set csv. \<not> lookup_fails (map_sales_method r)"
  shows "load_sales_data csv =
     Inr (map (clean (map map_sales_method csv)) (map map_sales_method csv))"
proof -
  from assms have "\<forall>r\<in>set (map map_sales_method csv). \<not> lookup_fails r" by simp
  then have "apply_rows (replace_null_revenue (mean_revenue_by_method (map map_sales_method csv)))
      (map map_sales_method csv) =
      Inr (map (imputed (map map_sales_method csv)) (map map_sales_method csv))"
    by (rule impute_returns)
  then show ?thesis
    by (simp only: load_sales_data_def Let_def sum.case set_revenue_zip)
qed


lemma load_sales_data_cases:
  "load_sales_data csv =
     (if \<exists>r\<in>set csv. lookup_fails (map_sales_method r) then Inl KeyError
      else Inr (map (clean (map map_sales_method csv)) (map map_sales_method csv)))"
  using load_sales_data_fails [of csv] load_sales_data_returns [of csv] by auto

lemma load_sales_data_Inr:
  assumes "load_sales_data csv = Inr out"
  shows "out = map (clean (map map_sales_method csv)) (map map_sales_method csv)"
    and "\<forall>r\<in>set csv. \<not> lookup_fails (map_sales_method r)"
  using assms unfolding load_sales_data_cases by (auto split: if_splits)

lemma load_sales_data_nth:
  assumes "load_sales_data csv = Inr out" and "i < length csv"
  shows "out ! i = clean (map map_sales_method csv) (map_sales_method (csv ! i))"
  using assms(2) unfolding load_sales_data_Inr(1) [OF assms(1)] by simp

lemma clean_simps:
  "state (clean sd r) = state r"
  "sales_method (clean sd r) = sales_method r"
  "revenue (clean sd r) = imputed sd r"
  "years_as_customer (clean sd r) = (if years_as_customer r > 39 then 39 else years_as_customer r)"
  by (simp_all add: clean_def cap_years_def)

lemma map_sales_method_simps:
  "state (map_sales_method r) = state r"
  "revenue (map_sales_method r) = revenue r"
  "years_as_customer (map_sales_method r) = years_as_customer r"
  by (simp_all add: map_sales_method_def)

lemma mean_all_missing: "\<forall>v\<in>set vs. v = None \<Longrightarrow> mean vs = None"
proof -
  assume "\<forall>v\<in>set vs. v = None"
  then have "List.map_filter id vs = []" by (induction vs) simp_all
  then show ?thesis by (simp add: mean_def)
qed

lemma lookup_fails_unmapped:
  "revenue r = None \<Longrightarrow> sales_method r = Some raw \<Longrightarrow> sales_method_mapping raw = None \<Longrightarrow>
   lookup_fails (map_sales_method r)"
  by (simp add: lookup_fails_def map_sales_method_def)

section \<open>Claims about the cleaning stage\<close>

text \<open>
  C5. Whenever the cleaning stage returns a table, the table has exactly as many rows
  as the input: normalising the categories, imputing the revenues and capping the
  tenure never drop or add a row.
\<close>

theorem row_count_invariant:
  assumes "load_sales_data csv = Inr out"
  shows "length out = length csv"
  unfolding load_sales_data_Inr(1) [OF assms] by simp

theorem row_count_invariant_witness:
  "load_sales_data sales_ex = Inr sales_ex_clean \<and> length sales_ex_clean = length sales_ex"
proof -
  have h: "load_sales_data sales_ex = Inr sales_ex_clean" by code_simp
  show ?thesis using h row_count_invariant [OF h] by simp
qed

text \<open>
  C6. For every record, the cleaning stage sets the tenure to exactly 39 when it
  exceeds 39 and leaves it unchanged otherwise; there is no lower bound. In the
  example table the tenures 45, 39 and 5 become 39, 39 and 5.
\<close>

theorem tenure_capped_at_39:
  assumes "load_sales_data csv = Inr out" and "i < length csv"
  shows "years_as_customer (out ! i) =
     (if years_as_customer (csv ! i) > 39 then 39 else years_as_customer (csv ! i))"
  using assms by (simp add: load_sales_data_nth clean_simps map_sales_method_simps)

theorem tenure_capped_at_39_witness:
  "load_sales_data sales_ex = Inr sales_ex_clean \<and>
   map years_as_customer sales_ex = [45, 39, 5] \<and>
   years_as_customer (sales_ex_clean ! 0) = 39 \<and>
   years_as_customer (sales_ex_clean ! 1) = 39 \<and>
   years_as_customer (sales_ex_clean ! 2) = 5"
proof -
  have h: "load_sales_data sales_ex = Inr sales_ex_clean" by code_simp
  have l: "0 < length sales_ex" "1 < length sales_ex" "2 < length sales_ex"
    by (simp_all add: sales_ex_def)
  have y: "map years_as_customer sales_ex = [45, 39, 5]"
    by (simp add: sales_ex_def)
  from y have "years_as_customer (sales_ex ! 0) = 45" "years_as_customer (sales_ex ! 1) = 39"
    "years_as_customer (sales_ex ! 2) = 5"
    by (simp_all add: sales_ex_def)
  with h y tenure_capped_at_39 [OF h l(1)] tenure_capped_at_39 [OF h l(2)]
    tenure_capped_at_39 [OF h l(3)]
  show ?thesis by simp
qed



text \<open>
  C10. A record whose raw category has no entry in the mapping and whose revenue is
  missing makes the imputation step raise KeyError: its normalised category is NaN,
  which is no label of the per-category means. When instead every record without a
  revenue has a mapped category (and the table has a row), cleaning returns, and each
  record with an unmapped category passes through with a null category and its own
  revenue.
\<close>

theorem unmapped_category_lookup_error:
  "((\<exists>r\<in>set csv. revenue r = None \<and>
        (\<exists>raw. sales_method r = Some raw \<and> sales_method_mapping raw = None)) \<longrightarrow>
      load_sales_data csv = Inl KeyError) \<and>
   (csv \<noteq> [] \<and>
    (\<forall>r\<in>set csv. revenue r = None \<longrightarrow> sales_method (map_sales_method r) \<noteq> None) \<longrightarrow>
      (\<exists>out. load_sales_data csv = Inr out \<and>
         (\<forall>i<length csv. sales_method (map_sales_method (csv ! i)) = None \<longrightarrow>
            sales_method (out ! i) = None \<and> revenue (out ! i) = revenue (csv ! i))))"
proof (intro conjI impI)
  assume "\<exists>r\<in>set csv. revenue r = None \<and>
        (\<exists>raw. sales_method r = Some raw \<and> sales_method_mapping raw = None)"
  then have "\<exists>r\<in>set csv. lookup_fails (map_sales_method r)"
    using lookup_fails_unmapped by blast
  then show "load_sales_data csv = Inl KeyError"
    by (rule load_sales_data_fails)
next
  assume "csv \<noteq> [] \<and>
    (\<forall>r\<in>set csv. revenue r = None \<longrightarrow> sales_method (map_sales_method r) \<noteq> None)"
  then have a: "\<forall>r\<in>set csv. revenue r = None \<longrightarrow> sales_method (map_sales_method r) \<noteq> None" ..
  let ?sd = "map map_sales_method csv"
  from a have "\<forall>r\<in>set csv. \<not> lookup_fails (map_sales_method r)"
    by (auto simp: lookup_fails_def map_sales_method_simps)
  then have out: "load_sales_data csv = Inr (map (clean ?sd) ?sd)"
    by (rule load_sales_data_returns)
  have "\<forall>i<length csv. sales_method (map_sales_method (csv ! i)) = None \<longrightarrow>
      sales_method (map (clean ?sd) ?sd ! i) = None \<and>
      revenue (map (clean ?sd) ?sd ! i) = revenue (csv ! i)"
    using a by (auto simp: clean_simps imputed_def map_sales_method_simps)
  with out show "\<exists>out. load_sales_data csv = Inr out \<and>
         (\<forall>i<length csv. sales_method (map_sales_method (csv ! i)) = None \<longrightarrow>
            sales_method (out ! i) = None \<and> revenue (out ! i) = revenue (csv ! i))"
    by blast
qed

theorem unmapped_category_lookup_error_witness:
  "revenue (sales_unmapped_missing ! 1) = None \<and>
   sales_method (sales_unmapped_missing ! 1) = Some ''phone'' \<and>
   sales_method_mapping ''phone'' = None \<and>
   load_sales_data sales_unmapped_missing = Inl KeyError \<and>
   map revenue (filter (\<lambda>r. sales_method (map_sales_method r) = None) sales_unmapped_present)
     = [Some 10] \<and>
   sales_method (map_sales_method (sales_unmapped_present ! 0)) = None \<and>
   (\<exists>out. load_sales_data sales_unmapped_present = Inr out \<and>
      sales_method (out ! 0) = None \<and> revenue (out ! 0) = Some 10)"
proof -
  have a: "\<exists>r\<in>set sales_unmapped_missing. revenue r = None \<and>
        (\<exists>raw. sales_method r = Some raw \<and> sales_method_mapping raw = None)"
    by (simp add: sales_unmapped_missing_def sales_method_mapping_def)
  have b: "\<forall>r\<in>set sales_unmapped_present.
        revenue r = None \<longrightarrow> sales_method (map_sales_method r) \<noteq> None"
    by (simp add: sales_unmapped_present_def map_sales_method_def sales_method_mapping_def)
  have c: "sales_method (map_sales_method (sales_unmapped_present ! 0)) = None"
    "revenue (sales_unmapped_present ! 0) = Some 10" "0 < length sales_unmapped_present"
    by (simp_all add: sales_unmapped_present_def map_sales_method_def sales_method_mapping_def)
  from a unmapped_category_lookup_error [of sales_unmapped_missing]
  have 1: "load_sales_data sales_unmapped_missing = Inl KeyError" by blast
  have "sales_unmapped_present \<noteq> []"
    by (simp add: sales_unmapped_present_def)
  with b unmapped_category_lookup_error [of sales_unmapped_present]
  obtain out where "load_sales_data sales_unmapped_present = Inr out"
    and "\<forall>i<length sales_unmapped_present.
       sales_method (map_sales_method (sales_unmapped_present ! i)) = None \<longrightarrow>
       sales_method (out ! i) = None \<and> revenue (out ! i) = revenue (sales_unmapped_present ! i)"
    by blast
  with c have "\<exists>out. load_sales_data sales_unmapped_present = Inr out \<and>
      sales_method (out ! 0) = None \<and> revenue (out ! 0) = Some 10"
    by auto
  moreover have "revenue (sales_unmapped_missing ! 1) = None"
    "sales_method (sales_unmapped_missing ! 1) = Some ''phone''"
    "sales_method_mapping ''phone'' = None"
    by (simp_all add: sales_unmapped_missing_def sales_method_mapping_def)
  moreover have "map revenue
      (filter (\<lambda>r. sales_method (map_sales_method r) = None) sales_unmapped_present) = [Some 10]"
    by (simp add: sales_unmapped_present_def map_sales_method_def sales_method_mapping_def)
  ultimately show ?thesis using c 1 by blast
qed

text \<open>
  C1 as stated fails: a record with the unmapped category \<^verbatim>\<open>phone\<close> and a revenue is
  not rejected, it leaves the cleaning stage with a null category.
\<close>

theorem unmapped_category_not_rejected:
  "sales_method_mapping ''phone'' = None \<and>
   load_sales_data
     [\<lparr>state = ''Ohio'', sales_method = Some ''phone'', revenue = Some 12, years_as_customer = 7\<rparr>] =
   Inr [\<lparr>state = ''Ohio'', sales_method = None, revenue = Some 12, years_as_customer = 7\<rparr>]"
  by code_simp

text \<open>
  C1, amended. For every table containing a record whose raw category has no entry
  in the mapping, normalisation gives that record a null category and raises nothing.
  The cleaning stage then either returns a table of the same length in which the
  record has a null category and its revenue unchanged, or raises KeyError, and the
  latter only when some record has neither a revenue nor a normalised category.
\<close>

theorem unmapped_category_becomes_null:
  assumes "i < length csv" and "sales_method (csv ! i) = Some raw"
    and "sales_method_mapping raw = None"
  shows "sales_method (map_sales_method (csv ! i)) = None \<and>
    (case load_sales_data csv of
       Inl e \<Rightarrow> e = KeyError \<and>
         (\<exists>r\<in>set csv. revenue r = None \<and> sales_method (map_sales_method r) = None)
     | Inr out \<Rightarrow> length out = length csv \<and> sales_method (out ! i) = None \<and>
         revenue (csv ! i) \<noteq> None \<and> revenue (out ! i) = revenue (csv ! i))"
proof -
  let ?sd = "map map_sales_method csv"
  have null: "sales_method (map_sales_method (csv ! i)) = None"
    using assms(2,3) by (simp add: map_sales_method_def)
  show ?thesis
  proof (cases "\<exists>r\<in>set csv. lookup_fails (map_sales_method r)")
    case True
    then have "load_sales_data csv = Inl KeyError" by (rule load_sales_data_fails)
    with True null show ?thesis
      by (simp add: lookup_fails_def map_sales_method_simps)
  next
    case False
    then have out: "load_sales_data csv = Inr (map (clean ?sd) ?sd)"
      by (simp add: load_sales_data_returns)
    from False assms(1) have "\<not> lookup_fails (map_sales_method (csv ! i))"
      using nth_mem by blast
    with null have "revenue (csv ! i) \<noteq> None"
      by (simp add: lookup_fails_def map_sales_method_simps)
    with null assms(1) show ?thesis
      by (simp add: out clean_simps imputed_def map_sales_method_simps)
  qed
qed

theorem unmapped_category_becomes_null_witness:
  "0 < length sales_unmapped_present \<and>
   sales_method (sales_unmapped_present ! 0) = Some ''phone'' \<and>
   sales_method_mapping ''phone'' = None \<and>
   sales_method (map_sales_method (sales_unmapped_present ! 0)) = None \<and>
   (\<exists>out. load_sales_data sales_unmapped_present = Inr out \<and>
      length out = length sales_unmapped_present \<and> sales_method (out ! 0) = None \<and>
      revenue (out ! 0) = revenue (sales_unmapped_present ! 0))"
proof -
  have a: "0 < length sales_unmapped_present"
    "sales_method (sales_unmapped_present ! 0) = Some ''phone''"
    by (simp_all add: sales_unmapped_present_def)
  have b: "sales_method_mapping ''phone'' = None"
    by (simp add: sales_method_mapping_def)
  have "\<forall>r\<in>set sales_unmapped_present. \<not> lookup_fails (map_sales_method r)"
    by (simp add: sales_unmapped_present_def lookup_fails_def map_sales_method_def
        sales_method_mapping_def)
  then obtain out where out: "load_sales_data sales_unmapped_present = Inr out"
    using load_sales_data_returns by blast
  from unmapped_category_becomes_null [OF a b] out a b show ?thesis by simp
qed

text \<open>
  C7 as stated fails: the category Call has no revenue at all in this table, and the
  cleaning stage returns; the revenue of the Call record is still missing.
\<close>

theorem all_missing_category_not_rejected:
  "load_sales_data
     [\<lparr>state = ''Texas'', sales_method = Some ''Call'', revenue = None, years_as_customer = 45\<rparr>,
      \<lparr>state = ''Ohio'', sales_method = Some ''Email'', revenue = Some 4, years_as_customer = 1\<rparr>] =
   Inr [\<lparr>state = ''Texas'', sales_method = Some ''Call'', revenue = None, years_as_customer = 39\<rparr>,
        \<lparr>state = ''Ohio'', sales_method = Some ''Email'', revenue = Some 4, years_as_customer = 1\<rparr>]"
  by code_simp

text \<open>
  C7, amended. When a category of the data has no record with a revenue, the cleaning
  stage raises nothing on that account: the mean of the category is NaN, and in the
  table it returns every record of that category still has a missing revenue. (It
  raises KeyError only as under C10, for a record with neither a revenue nor a
  normalised category.)
\<close>

theorem all_missing_category_stays_missing:
  assumes "i < length csv" and "sales_method (map_sales_method (csv ! i)) = Some c"
    and "\<forall>r\<in>set csv. sales_method (map_sales_method r) = Some c \<longrightarrow> revenue r = None"
  shows "case load_sales_data csv of
       Inl e \<Rightarrow> e = KeyError \<and>
         (\<exists>r\<in>set csv. revenue r = None \<and> sales_method (map_sales_method r) = None)
     | Inr out \<Rightarrow> length out = length csv \<and> sales_method (out ! i) = Some c \<and>
         revenue (out ! i) = None"
proof (cases "\<exists>r\<in>set csv. lookup_fails (map_sales_method r)")
  case True
  then have "load_sales_data csv = Inl KeyError" by (rule load_sales_data_fails)
  with True show ?thesis
    by (simp add: lookup_fails_def map_sales_method_simps)
next
  case False
  let ?sd = "map map_sales_method csv"
  from False have out: "load_sales_data csv = Inr (map (clean ?sd) ?sd)"
    by (simp add: load_sales_data_returns)
  have "\<forall>v\<in>set (map revenue (filter (\<lambda>r. sales_method r = Some c) ?sd)). v = None"
    using assms(3) by (auto simp: map_sales_method_simps)
  then have m: "mean (map revenue (filter (\<lambda>r. sales_method r = Some c) ?sd)) = None"
    by (rule mean_all_missing)
  from assms(1,3) have "revenue (csv ! i) = None"
    using assms(2) nth_mem by blast
  with assms(1,2) m show ?thesis
    by (simp add: out clean_simps imputed_def map_sales_method_simps)
qed

theorem all_missing_category_stays_missing_witness:
  "0 < length sales_all_missing \<and>
   sales_method (map_sales_method (sales_all_missing ! 0)) = Some ''Call'' \<and>
   map revenue (filter (\<lambda>r. sales_method (map_sales_method r) = Some ''Call'') sales_all_missing)
     = [None] \<and>
   (\<exists>out. load_sales_data sales_all_missing = Inr out \<and>
      length out = length sales_all_missing \<and> sales_method (out ! 0) = Some ''Call'' \<and>
      revenue (out ! 0) = None)"
proof -
  have a: "0 < length sales_all_missing"
    "sales_method (map_sales_method (sales_all_missing ! 0)) = Some ''Call''"
    "\<forall>r\<in>set sales_all_missing.
      sales_method (map_sales_method r) = Some ''Call'' \<longrightarrow> revenue r = None"
    by (simp_all add: sales_all_missing_def map_sales_method_def sales_method_mapping_def)
  have "\<forall>r\<in>set sales_all_missing. \<not> lookup_fails (map_sales_method r)"
    by (simp add: sales_all_missing_def lookup_fails_def map_sales_method_def
        sales_method_mapping_def)
  then obtain out where out: "load_sales_data sales_all_missing = Inr out"
    using load_sales_data_returns by blast
  have f: "map revenue
      (filter (\<lambda>r. sales_method (map_sales_method r) = Some ''Call'') sales_all_missing) = [None]"
    by (simp add: sales_all_missing_def map_sales_method_def sales_method_mapping_def)
  from all_missing_category_stays_missing [OF a] out a(1,2) f show ?thesis by simp
qed

section \<open>Lemmas about the aggregation\<close>

lemma set_group_pairs:
  "set (group_pairs sd) = {(state r, m) |r m. r \<in> set sd \<and> sales_method r = Some m}"
  unfolding group_pairs_def set_map_filter by auto

lemma set_pct_columns:
  "set (pct_columns sd) = {m. \<exists>r\<in>set sd. sales_method r = Some m}"
proof -
  have "snd ` set (group_pairs sd) = {m. \<exists>r\<in>set sd. sales_method r = Some m}"
    unfolding set_group_pairs by force
  then show ?thesis by (simp add: pct_columns_def)
qed



lemma distinct_pct_columns: "distinct (pct_columns sd)"
  by (simp add: pct_columns_def)

lemma has_columns_iff: "has_columns columns labels \<longleftrightarrow> set labels \<subseteq> set columns"
  by (auto simp: has_columns_def list_all_iff)

lemma count_group_pairs:
  "count_list (group_pairs sd) (s, c) = region_count sd s c"
  unfolding group_pairs_def region_count_def
  by (induction sd) (auto split: option.splits)

lemma length_group_pairs:
  "length (filter (\<lambda>p. fst p = s) (group_pairs sd)) = region_total sd s"
  unfolding group_pairs_def region_total_def
  by (induction sd) (auto split: option.splits)

lemma sum_indicator_distinct:
  "distinct cs \<Longrightarrow> sum_list (map (\<lambda>m. if b = m then 1 else 0) cs) = (if b \<in> set cs then 1 else (0::nat))"
  by (induction cs) auto

lemma sum_count_columns:
  assumes "distinct cs" and "snd ` set ps \<subseteq> set cs"
  shows "sum_list (map (\<lambda>m. count_list ps (s, m)) cs) = length (filter (\<lambda>p. fst p = s) ps)"
  using assms(2)
proof (induction ps)
  case Nil
  show ?case by simp
next
  case (Cons p ps)
  obtain a b where p: "p = (a, b)" by (cases p)
  from Cons.prems p have b: "b \<in> set cs" and sub: "snd ` set ps \<subseteq> set cs" by auto
  have "sum_list (map (\<lambda>m. count_list (p # ps) (s, m)) cs) =
      sum_list (map (\<lambda>m. count_list ps (s, m) + (if a = s then (if b = m then 1 else 0) else 0)) cs)"
    unfolding p by (intro arg_cong [where f = sum_list] map_cong) auto
  also have "\<dots> = sum_list (map (\<lambda>m. count_list ps (s, m)) cs) +
      sum_list (map (\<lambda>m. if a = s then (if b = m then 1 else 0) else 0) cs)"
    by (rule sum_list_addf)
  also have "sum_list (map (\<lambda>m. if a = s then (if b = m then 1 else 0) else 0) cs) =
      (if a = s then 1 else (0::nat))"
    using sum_indicator_distinct [OF assms(1), of b] b by (cases "a = s") simp_all
  finally show ?case
    using Cons.IH [OF sub] by (simp add: p)
qed

lemma sum_size_row:
  "sum_list (map snd (size_row sd s)) = region_total sd s"
proof -
  have "sum_list (map snd (size_row sd s)) =
      sum_list (map (\<lambda>m. count_list (group_pairs sd) (s, m)) (pct_columns sd))"
    by (simp add: size_row_def o_def)
  also have "\<dots> = length (filter (\<lambda>p. fst p = s) (group_pairs sd))"
    by (rule sum_count_columns) (simp_all add: pct_columns_def)
  finally show ?thesis by (simp add: length_group_pairs)
qed

lemma pct_row_size_row:
  "pct_row (size_row sd s) = map (\<lambda>c. (c, share sd s c)) (pct_columns sd)"
  unfolding pct_row_def Let_def sum_size_row
  by (simp add: size_row_def share_def count_group_pairs)


lemma select_cols_tabulated:
  assumes "set labels \<subseteq> set cols"
  shows "select_cols labels (map (\<lambda>c. (c, g c)) cols) = Inr (map (\<lambda>c. (c, g c)) labels)"
  unfolding select_cols_def
  using assms by (intro apply_rows_total) (auto simp: map_of_tabulate)

lemma choropleth_of_row:
  assumes "has_columns (pct_columns sd) numeric_cols"
  shows "choropleth_of (s, pct_row (size_row sd s)) = Inr (region_row sd s)"
proof -
  from assms have "set numeric_cols \<subseteq> set (pct_columns sd)"
    by (simp add: has_columns_iff)
  then have "select_cols numeric_cols (map (\<lambda>c. (c, share sd s c)) (pct_columns sd)) =
      Inr (map (\<lambda>c. (c, share sd s c)) numeric_cols)"
    by (rule select_cols_tabulated)
  then show ?thesis
    by (simp add: choropleth_of_def pct_row_size_row idxmax_def numeric_cols_def region_row_def
        Let_def)
qed

lemma apply_rows_map: "apply_rows f (map g xs) = apply_rows (\<lambda>x. f (g x)) xs"
  by (induction xs) (simp_all split: sum.splits)

lemma calculate_geographic_dominance_cases:
  "calculate_geographic_dominance sd =
     (if set numeric_cols \<subseteq> {m. \<exists>r\<in>set sd. sales_method r = Some m}
      then Inr (map (region_row sd) (pct_index sd)) else Inl KeyError)"
proof (cases "has_columns (pct_columns sd) numeric_cols")
  case True
  have "apply_rows choropleth_of (state_method_pct sd) =
      apply_rows (\<lambda>s. choropleth_of (s, pct_row (size_row sd s))) (pct_index sd)"
    unfolding state_method_pct_def by (rule apply_rows_map)
  also have "\<dots> = Inr (map (region_row sd) (pct_index sd))"
    by (intro apply_rows_total ballI choropleth_of_row True)
  finally show ?thesis
    using True by (simp add: calculate_geographic_dominance_def has_columns_iff set_pct_columns)
next
  case False
  then show ?thesis
    by (simp add: calculate_geographic_dominance_def has_columns_iff set_pct_columns)
qed

lemma region_row_simps:
  "region (region_row sd s) = s"
  "method_pct (region_row sd s) = map (\<lambda>c. (c, share sd s c)) (pct_columns sd)"
  "abbrev (region_row sd s) = state_abbrev s"
  by (simp_all add: region_row_def Let_def)

lemma region_row_dominance:
  "dominance_strength (region_row sd s) =
     max (share sd s ''Call'') (max (share sd s ''Email'') (share sd s ''Email + Call''))"
  "dominant_method (region_row sd s) =
     (if share sd s ''Email'' \<le> share sd s ''Call'' \<and> share sd s ''Email + Call'' \<le> share sd s ''Call''
      then ''Call''
      else if share sd s ''Email + Call'' \<le> share sd s ''Email'' then ''Email''
      else ''Email + Call'')"
  by (auto simp: region_row_def Let_def max_def)

lemma sort_remdups_cong:
  fixes xs ys :: "'a::linorder list"
  assumes "set xs = set ys"
  shows "sort (remdups xs) = sort (remdups ys)"
  by (rule sorted_distinct_set_unique) (simp_all add: assms)

lemma mset_group_pairs:
  "mset sd' = mset sd \<Longrightarrow> mset (group_pairs sd') = mset (group_pairs sd)"
  by (simp add: group_pairs_def List.map_filter_def)

lemma state_method_pct_mset:
  assumes "mset sd' = mset sd"
  shows "state_method_pct sd' = state_method_pct sd" and "pct_columns sd' = pct_columns sd"
proof -
  have m: "mset (group_pairs sd') = mset (group_pairs sd)"
    using assms by (rule mset_group_pairs)
  then have s: "set (group_pairs sd') = set (group_pairs sd)"
    by (rule mset_eq_setD)
  have c: "count_list (group_pairs sd') p = count_list (group_pairs sd) p" for p
    using m by (metis count_mset)
  from s have i: "pct_index sd' = pct_index sd"
    unfolding pct_index_def by (intro sort_remdups_cong) simp
  from s show k: "pct_columns sd' = pct_columns sd"
    unfolding pct_columns_def by (intro sort_remdups_cong) simp
  show "state_method_pct sd' = state_method_pct sd"
    by (simp add: state_method_pct_def size_row_def i k c)
qed

lemma calculate_geographic_dominance_mset:
  assumes "mset sd' = mset sd"
  shows "calculate_geographic_dominance sd' = calculate_geographic_dominance sd"
  unfolding calculate_geographic_dominance_def state_method_pct_mset [OF assms] ..

lemma map_of_shares:
  "c \<in> set cols \<Longrightarrow> map_of (map (\<lambda>c. (c, share sd s c)) cols) c = Some (share sd s c)"
  by (simp add: map_of_tabulate)







section \<open>Claims about the aggregation\<close>

text \<open>
  C9. When one of the three categories Call, Email, Email + Call occurs in no record
  of the table, the selection of the columns \<^verbatim>\<open>numeric_cols\<close> raises KeyError: the
  aggregation returns no table, it does not give the absent category the share 0.
\<close>

theorem absent_category_lookup_error:
  assumes "\<exists>c\<in>set numeric_cols. \<forall>r\<in>set sd. sales_method r \<noteq> Some c"
  shows "calculate_geographic_dominance sd = Inl KeyError"
  using assms unfolding calculate_geographic_dominance_cases by auto

theorem absent_category_lookup_error_witness:
  "map sales_method sales_two_methods = [Some ''Call'', Some ''Email''] \<and>
   calculate_geographic_dominance sales_two_methods = Inl KeyError"
proof -
  have m: "map sales_method sales_two_methods = [Some ''Call'', Some ''Email'']"
    by (simp add: sales_two_methods_def)
  have "\<exists>c\<in>set numeric_cols. \<forall>r\<in>set sales_two_methods. sales_method r \<noteq> Some c"
    by (simp add: numeric_cols_def sales_two_methods_def)
  from absent_category_lookup_error [OF this] m show ?thesis by simp
qed

text \<open>
  C3. For a cleaned table, in every row of the result the dominance strength is the
  largest of the three shares Call, Email, Email + Call, the dominant method is a
  category with that share, and among equal largest shares it is the first in the
  fixed order Call, Email, Email + Call. The result does not depend on the order of
  the records of the table. In the example the region with 3 Email, 7 Call and no
  Email + Call record out of 10 gets Call with strength 70, and a region with one
  Email record followed by one Call record gets Call.
\<close>

theorem dominant_method_first_maximum:
  assumes "load_sales_data csv = Inr sd" and "calculate_geographic_dominance sd = Inr out"
  shows "(\<forall>row\<in>set out. \<exists>call email both.
        map_of (method_pct row) ''Call'' = Some call \<and>
        map_of (method_pct row) ''Email'' = Some email \<and>
        map_of (method_pct row) ''Email + Call'' = Some both \<and>
        dominance_strength row = max call (max email both) \<and>
        map_of (method_pct row) (dominant_method row) = Some (dominance_strength row) \<and>
        dominant_method row =
          (if email \<le> call \<and> both \<le> call then ''Call''
           else if both \<le> email then ''Email'' else ''Email + Call'')) \<and>
     (\<forall>sd'. mset sd' = mset sd \<longrightarrow> calculate_geographic_dominance sd' = Inr out)"
proof (intro conjI ballI allI impI)
  fix sd' :: "sale list"
  assume "mset sd' = mset sd"
  then have "calculate_geographic_dominance sd' = calculate_geographic_dominance sd"
    by (rule calculate_geographic_dominance_mset)
  with assms(2) show "calculate_geographic_dominance sd' = Inr out"
    by simp
next
  fix row
  assume row: "row \<in> set out"
  from assms(2) have cols: "set numeric_cols \<subseteq> set (pct_columns sd)"
    and out: "out = map (region_row sd) (pct_index sd)"
    unfolding calculate_geographic_dominance_cases set_pct_columns by (auto split: if_splits)
  from row out obtain s where r: "row = region_row sd s" by auto
  from cols have m: "map_of (method_pct row) ''Call'' = Some (share sd s ''Call'')"
    "map_of (method_pct row) ''Email'' = Some (share sd s ''Email'')"
    "map_of (method_pct row) ''Email + Call'' = Some (share sd s ''Email + Call'')"
    unfolding r region_row_simps by (simp_all add: map_of_shares numeric_cols_def)
  have d: "dominance_strength row =
      max (share sd s ''Call'') (max (share sd s ''Email'') (share sd s ''Email + Call''))"
    "dominant_method row =
     (if share sd s ''Email'' \<le> share sd s ''Call'' \<and> share sd s ''Email + Call'' \<le> share sd s ''Call''
      then ''Call''
      else if share sd s ''Email + Call'' \<le> share sd s ''Email'' then ''Email''
      else ''Email + Call'')"
    unfolding r by (rule region_row_dominance)+
  have "map_of (method_pct row) (dominant_method row) = Some (dominance_strength row)"
    unfolding d using m by (auto simp: max_def)
  with m d show "\<exists>call email both.
        map_of (method_pct row) ''Call'' = Some call \<and>
        map_of (method_pct row) ''Email'' = Some email \<and>
        map_of (method_pct row) ''Email + Call'' = Some both \<and>
        dominance_strength row = max call (max email both) \<and>
        map_of (method_pct row) (dominant_method row) = Some (dominance_strength row) \<and>
        dominant_method row =
          (if email \<le> call \<and> both \<le> call then ''Call''
           else if both \<le> email then ''Email'' else ''Email + Call'')"
    by blast
qed

theorem dominant_method_first_maximum_witness:
  "load_sales_data dominance_ex = Inr dominance_ex \<and>
   calculate_geographic_dominance dominance_ex = Inr dominance_ex_out \<and>
   region (dominance_ex_out ! 1) = ''Texas'' \<and>
   region_count dominance_ex ''Texas'' ''Email'' = 3 \<and>
   region_count dominance_ex ''Texas'' ''Call'' = 7 \<and>
   region_count dominance_ex ''Texas'' ''Email + Call'' = 0 \<and>
   region_total dominance_ex ''Texas'' = 10 \<and>
   dominant_method (dominance_ex_out ! 1) = ''Call'' \<and>
   dominance_strength (dominance_ex_out ! 1) = 70 \<and>
   method_pct (dominance_ex_out ! 2) = [(''Call'', 50), (''Email'', 50), (''Email + Call'', 0)] \<and>
   dominant_method (dominance_ex_out ! 2) = ''Call'' \<and>
   calculate_geographic_dominance (rev dominance_ex) = Inr dominance_ex_out"
proof -
  have c0: "load_sales_data dominance_ex = Inr dominance_ex" by code_simp
  have h: "calculate_geographic_dominance dominance_ex = Inr dominance_ex_out" by code_simp
  note dom = dominant_method_first_maximum [OF c0 h]
  have c: "region_count dominance_ex ''Texas'' ''Email'' = 3"
    "region_count dominance_ex ''Texas'' ''Call'' = 7"
    "region_count dominance_ex ''Texas'' ''Email + Call'' = 0"
    "region_total dominance_ex ''Texas'' = 10"
    by code_simp+
  have r: "dominance_ex_out ! 1 \<in> set dominance_ex_out" "dominance_ex_out ! 2 \<in> set dominance_ex_out"
    "region (dominance_ex_out ! 1) = ''Texas''"
    by (simp_all add: dominance_ex_out_def)
  have m1: "map_of (method_pct (dominance_ex_out ! 1)) ''Call'' = Some 70"
    "map_of (method_pct (dominance_ex_out ! 1)) ''Email'' = Some 30"
    "map_of (method_pct (dominance_ex_out ! 1)) ''Email + Call'' = Some 0"
    by (simp_all add: dominance_ex_out_def)
  have m2: "method_pct (dominance_ex_out ! 2) = [(''Call'', 50), (''Email'', 50), (''Email + Call'', 0)]"
    by (simp add: dominance_ex_out_def)
  from dom r(1) m1 have d1: "dominant_method (dominance_ex_out ! 1) = ''Call''"
    "dominance_strength (dominance_ex_out ! 1) = 70"
    by fastforce+
  from dom r(2) m2 have d2: "dominant_method (dominance_ex_out ! 2) = ''Call''"
    by fastforce
  have "mset (rev dominance_ex) = mset dominance_ex" by simp
  with dom have p: "calculate_geographic_dominance (rev dominance_ex) = Inr dominance_ex_out"
    by blast
  from c0 h c r(3) d1 m2 d2 p show ?thesis by simp
qed







end
